theory Spec2Isabelle
  imports Main "HOL-Library.AList"
begin

section \<open>JavaScript strings\<close>

text \<open>
  Strings are character lists. \<open>split_on c s\<close> is \<^verbatim>\<open>s.split(c)\<close> for a one-character
  separator: the pieces between the occurrences of \<open>c\<close>, empty pieces kept, so the result
  always has at least one element. \<open>join_with sep ws\<close> is \<^verbatim>\<open>ws.join(sep)\<close>.
\<close>

fun split_on :: "char \<Rightarrow> string \<Rightarrow> string list" where
  "split_on c [] = [[]]"
| "split_on c (x # xs) =
     (if x = c then [] # split_on c xs
      else (case split_on c xs of
              [] \<Rightarrow> [[x]]
            | w # ws \<Rightarrow> (x # w) # ws))"

fun join_with :: "string \<Rightarrow> string list \<Rightarrow> string" where
  "join_with sep [] = []"
| "join_with sep [w] = w"
| "join_with sep (w # v # ws) = w @ sep @ join_with sep (v # ws)"

text \<open>
  \<^verbatim>\<open>trim()\<close> removes white space and line terminators at both ends. The model covers
  strings whose code units are below 256, one \<open>char\<close> each; among those the white space is
  tab, line feed, vertical tab, form feed, carriage return, space and no-break space.
\<close>

definition is_white_space :: "char \<Rightarrow> bool" where
  "is_white_space c =
     (c \<in> set [CHR 0x09, CHR 0x0A, CHR 0x0B, CHR 0x0C, CHR 0x0D, CHR 0x20, CHR 0xA0])"

definition trim :: "string \<Rightarrow> string" where
  "trim s = rev (dropWhile is_white_space (rev (dropWhile is_white_space s)))"

text \<open>
  \<^verbatim>\<open>s.match(/.{1,64}/g)\<close>: the dot matches any character but a line terminator, so the
  matches are the successive pieces of at most 64 characters inside each run between line
  terminators. \<open>match_chunks cur s\<close> carries the piece being read, reversed.
\<close>

definition is_line_terminator :: "char \<Rightarrow> bool" where
  "is_line_terminator c = (c = CHR 0x0A \<or> c = CHR 0x0D)"

fun match_chunks :: "string \<Rightarrow> string \<Rightarrow> string list" where
  "match_chunks cur [] = (if cur = [] then [] else [rev cur])"
| "match_chunks cur (x # xs) =
     (if is_line_terminator x
      then (if cur = [] then match_chunks [] xs else rev cur # match_chunks [] xs)
      else if length cur = 64 then rev cur # match_chunks [x] xs
      else match_chunks (x # cur) xs)"

text \<open>
  \<^verbatim>\<open>s.replace(/literal/, '')\<close> removes the first occurrence of the literal, and
  \<^verbatim>\<open>s.replace(/\r?\n/g, '')\<close> removes every line feed together with a carriage return
  right before it.
\<close>

fun remove_first :: "string \<Rightarrow> string \<Rightarrow> string" where
  "remove_first pat [] = []"
| "remove_first pat (x # xs) =
     (if take (length pat) (x # xs) = pat then drop (length pat) (x # xs)
      else x # remove_first pat xs)"

fun remove_newlines :: "string \<Rightarrow> string" where
  "remove_newlines [] = []"
| "remove_newlines [x] = (if x = CHR 0x0A then [] else [x])"
| "remove_newlines (x # y # zs) =
     (if x = CHR 0x0A then remove_newlines (y # zs)
      else if x = CHR 0x0D \<and> y = CHR 0x0A then remove_newlines zs
      else x # remove_newlines (y # zs))"

section \<open>Identities (core/utils)\<close>

record ParsedIdentity =
  accountName :: string
  domainName :: string

text \<open>
  \<^verbatim>\<open>const [accountName, domainName] = identity.split('$')\<close> takes the first two pieces
  and ignores any further one; a missing second piece is \<^verbatim>\<open>undefined\<close>, which is falsy
  like the empty string.
\<close>

definition parseIdentity :: "string \<Rightarrow> ParsedIdentity option" where
  "parseIdentity identity =
     (case split_on CHR ''$'' identity of
        [] \<Rightarrow> None
      | [a] \<Rightarrow> None
      | a # d # rest \<Rightarrow>
          if a = [] \<or> d = [] then None
          else Some \<lparr>accountName = a, domainName = d\<rparr>)"

definition isValidIdentity :: "string \<Rightarrow> bool" where
  "isValidIdentity identity = (parseIdentity identity \<noteq> None)"

definition pemToBase64 :: "string \<Rightarrow> string" where
  "pemToBase64 pem =
     trim (remove_newlines
       (remove_first ''-----END PUBLIC KEY-----''
         (remove_first ''-----BEGIN PUBLIC KEY-----'' pem)))"

definition base64ToPem :: "string \<Rightarrow> string" where
  "base64ToPem base64 =
     join_with [CHR 0x0A]
       ([''-----BEGIN PUBLIC KEY-----''] @ match_chunks [] base64 @ [''-----END PUBLIC KEY-----''])"

section \<open>DNS lookups (core/utils)\<close>

text \<open>
  The TXT strings are concatenated, split on \<open>;\<close>, each piece trimmed and split on \<open>=\<close>
  with both sides trimmed, and only the pieces that split into exactly two parts are kept.
  \<^verbatim>\<open>Object.fromEntries\<close> lets a later pair override an earlier one with the same key.
\<close>

definition txt_pairs :: "string \<Rightarrow> (string \<times> string) list" where
  "txt_pairs flat =
     List.map_filter (\<lambda>pair. case pair of [k, v] \<Rightarrow> Some (k, v) | _ \<Rightarrow> None)
       (map (\<lambda>s. map trim (split_on CHR ''='' (trim s))) (split_on CHR '';'' flat))"

definition fromEntries :: "(string \<times> string) list \<Rightarrow> string \<Rightarrow> string option" where
  "fromEntries entries = map_of (rev entries)"

definition txt_parts :: "string list list \<Rightarrow> string \<Rightarrow> string option" where
  "txt_parts txtRecords = fromEntries (txt_pairs (concat (map concat txtRecords)))"

text \<open>
  Modelled from the spec: the constants \<^verbatim>\<open>BTPS_NAME_SPACE\<close> and
  \<^verbatim>\<open>BTP_PROTOCOL_VERSION\<close>, imported from the server module, which is not part of the
  sources; the spec gives the namespace label \<open>_btps\<close> and the version literal \<open>1.0.0\<close>.
\<close>

definition BTPS_NAME_SPACE :: string where
  "BTPS_NAME_SPACE = ''_btps''"


text \<open>
  \<^verbatim>\<open>dns.resolveTxt\<close> is the environment: a function from the queried name to either a
  failure (its code) or the list of TXT records, each a list of strings. Everything thrown
  inside the \<^verbatim>\<open>try\<close> block is caught and rethrown as one error that carries a name and
  the cause.
\<close>

datatype thrown = DnsFailure string | TypeError

datatype lookup_error = DnsResolutionFailed string thrown

type_synonym resolver = "string \<Rightarrow> string + string list list"




text \<open>
  \<^verbatim>\<open>getDnsIdentityParts\<close> returns \<^verbatim>\<open>undefined\<close>, one string, or (with no type asked
  for) the three parts. \<^verbatim>\<open>base64ToPem(parts['p'])\<close> calls \<^verbatim>\<open>match\<close> on its argument:
  when the record has no \<open>p\<close> entry the argument is \<^verbatim>\<open>undefined\<close> and the call throws a
  TypeError inside the \<^verbatim>\<open>try\<close> block. The rethrown error names the domain.
\<close>

datatype part_type = Key | Pem | Version

datatype identity_parts =
    Part string
  | AllParts "string option" "string option" string

definition getDnsIdentityParts ::
  "resolver \<Rightarrow> string \<Rightarrow> string \<Rightarrow> part_type option \<Rightarrow> lookup_error + identity_parts option" where
  "getDnsIdentityParts resolveTxt identity sel type =
     (case parseIdentity identity of
        None \<Rightarrow> Inr None
      | Some parsedIdentity \<Rightarrow>
          (let dnsName = sel @ ''.'' @ BTPS_NAME_SPACE @ ''.'' @ accountName parsedIdentity
                           @ ''.'' @ domainName parsedIdentity in
           case resolveTxt dnsName of
             Inl e \<Rightarrow> Inl (DnsResolutionFailed (domainName parsedIdentity) (DnsFailure e))
           | Inr txtRecords \<Rightarrow>
               if txtRecords = [] then Inr None
               else
                 (let parts = txt_parts txtRecords
                  in case type of
                       None \<Rightarrow>
                         (case parts ''p'' of
                            None \<Rightarrow> Inl (DnsResolutionFailed (domainName parsedIdentity) TypeError)
                          | Some b \<Rightarrow>
                              Inr (Some (AllParts (parts ''k'') (parts ''v'') (base64ToPem b))))
                     | Some Pem \<Rightarrow>
                         (case parts ''p'' of
                            None \<Rightarrow> Inl (DnsResolutionFailed (domainName parsedIdentity) TypeError)
                          | Some b \<Rightarrow> Inr (Some (Part (base64ToPem b))))
                     | Some Key \<Rightarrow> Inr (map_option Part (parts ''k''))
                     | Some Version \<Rightarrow> Inr (map_option Part (parts ''v'')))))"

definition resolvePublicKey ::
  "resolver \<Rightarrow> string \<Rightarrow> string \<Rightarrow> lookup_error + identity_parts option" where
  "resolvePublicKey resolveTxt identity sel =
     getDnsIdentityParts resolveTxt identity sel (Some Pem)"

text \<open>A DNS view used to evaluate the lookups on concrete records.\<close>

definition example_dns :: resolver where
  "example_dns name =
     (if name = ''_btps.a.example''
        then Inr [[''v=1.0.0; u=btps.a.example:3443; '', ''s=btps1'']]
      else if name = ''_btps.b.example'' then Inr [[''v=2.0.0; u=btps.b.example; s=btps1'']]
      else if name = ''btps1._btps.alice.a.example'' then Inr [[''v=1.0.0; k=rsa; p=QUJDRA=='']]
      else if name = ''btps2._btps.alice.a.example'' then Inr [[''v=1.0.0; k=rsa; p=QUJD'']]
      else Inl ''ENOTFOUND'')"

section \<open>JavaScript values\<close>

text \<open>
  Values as JSON and the code see them. Numbers are restricted to integers. An object is
  the list of its own properties in insertion order, each key once.
\<close>

datatype jsval =
    JUndefined
  | JNull
  | JBool bool
  | JNum int
  | JStr string
  | JArr "jsval list"
  | JObj "(string \<times> jsval) list"

type_synonym jsobj = "(string \<times> jsval) list"

text \<open>Reading a property that is absent gives \<^verbatim>\<open>undefined\<close>.\<close>

definition field :: "jsobj \<Rightarrow> string \<Rightarrow> jsval" where
  "field obj k = (case map_of obj k of None \<Rightarrow> JUndefined | Some v \<Rightarrow> v)"

fun truthy :: "jsval \<Rightarrow> bool" where
  "truthy JUndefined = False"
| "truthy JNull = False"
| "truthy (JBool b) = b"
| "truthy (JNum n) = (n \<noteq> 0)"
| "truthy (JStr s) = (s \<noteq> [])"
| "truthy (JArr xs) = True"
| "truthy (JObj kvs) = True"

fun is_string :: "jsval \<Rightarrow> bool" where
  "is_string (JStr s) = True"
| "is_string v = False"

section \<open>Schema validation (core/server/schemas)\<close>

text \<open>
  The schemas are built with the zod library. Parsing a value gives one of three statuses:
  valid; dirty, when the value has the right type and a check on it (a regular expression,
  a date format, a refinement) failed; aborted, when the type is wrong. An object schema
  parses every field of its shape, is aborted when a field is, and records one issue per
  failing field under that field's path. A refinement added to an object schema runs unless
  the object is aborted, and the parse succeeds exactly when no issue was recorded. The
  model keeps, for each issue, the first element of its path. A candidate is an object.
\<close>

datatype parse_status = Valid | Dirty | Aborted

definition merge_status :: "parse_status list \<Rightarrow> parse_status" where
  "merge_status sts =
     (if Aborted \<in> set sts then Aborted else if Dirty \<in> set sts then Dirty else Valid)"

text \<open>
  The regular expression \<^verbatim>\<open>/^\d+\.\d+\.\d+$/\<close>: three non-empty groups of decimal
  digits separated by dots, anchored at both ends. As digits are not dots, a matching
  string is one that splits on \<open>.\<close> into exactly three such groups.
\<close>

definition is_digit :: "char \<Rightarrow> bool" where
  "is_digit c = (c \<in> set ''0123456789'')"

definition version_regex :: "string \<Rightarrow> bool" where
  "version_regex s =
     (case split_on CHR ''.'' s of
        [a, b, c] \<Rightarrow> a \<noteq> [] \<and> b \<noteq> [] \<and> c \<noteq> [] \<and>
                     list_all is_digit a \<and> list_all is_digit b \<and> list_all is_digit c
      | _ \<Rightarrow> False)"

definition z_string :: "jsval \<Rightarrow> parse_status" where
  "z_string v = (case v of JStr s \<Rightarrow> Valid | _ \<Rightarrow> Aborted)"

definition z_string_check :: "(string \<Rightarrow> bool) \<Rightarrow> jsval \<Rightarrow> parse_status" where
  "z_string_check ok v = (case v of JStr s \<Rightarrow> if ok s then Valid else Dirty | _ \<Rightarrow> Aborted)"

definition z_boolean :: "jsval \<Rightarrow> parse_status" where
  "z_boolean v = (case v of JBool b \<Rightarrow> Valid | _ \<Rightarrow> Aborted)"

definition z_number :: "jsval \<Rightarrow> parse_status" where
  "z_number v = (case v of JNum n \<Rightarrow> Valid | _ \<Rightarrow> Aborted)"

definition z_enum :: "string list \<Rightarrow> jsval \<Rightarrow> parse_status" where
  "z_enum names v = (case v of JStr s \<Rightarrow> if s \<in> set names then Valid else Aborted | _ \<Rightarrow> Aborted)"

definition z_optional :: "(jsval \<Rightarrow> parse_status) \<Rightarrow> jsval \<Rightarrow> parse_status" where
  "z_optional schema v = (if v = JUndefined then Valid else schema v)"

definition z_union :: "(jsval \<Rightarrow> parse_status) \<Rightarrow> (jsval \<Rightarrow> parse_status) \<Rightarrow> jsval \<Rightarrow> parse_status" where
  "z_union a b v =
     (if a v = Valid \<or> b v = Valid then Valid
      else if a v = Dirty \<or> b v = Dirty then Dirty
      else Aborted)"

definition z_object :: "(string \<times> (jsval \<Rightarrow> parse_status)) list \<Rightarrow> jsobj \<Rightarrow> (string \<times> parse_status) list" where
  "z_object shape data = map (\<lambda>(k, schema). (k, schema (field data k))) shape"

definition BtpStatusSchema :: "jsval \<Rightarrow> parse_status" where
  "BtpStatusSchema v =
     (case v of
        JObj data \<Rightarrow>
          merge_status (map snd (z_object
            [(''ok'', z_boolean), (''code'', z_number), (''message'', z_optional z_string)] data))
      | _ \<Rightarrow> Aborted)"

text \<open>
  The schemas that the response schema imports from files that are not part of the sources
  are parameters: the signature, encryption and identity schemas, the union of response
  documents (one of its members is imported), and the date-time check of the library.
\<close>

record schemas =
  BtpSignatureSchema :: "jsval \<Rightarrow> parse_status"
  BtpEncryptionSchema :: "jsval \<Rightarrow> parse_status"
  identitySchema :: "jsval \<Rightarrow> parse_status"
  BtpServerResDocsSchema :: "jsval \<Rightarrow> parse_status"
  datetime :: "string \<Rightarrow> bool"

definition response_shape :: "schemas \<Rightarrow> (string \<times> (jsval \<Rightarrow> parse_status)) list" where
  "response_shape sc =
     [(''version'', z_string_check version_regex),
      (''status'', BtpStatusSchema),
      (''id'', z_string),
      (''issuedAt'', z_string_check (datetime sc)),
      (''type'', z_enum [''btps_error'', ''btps_response'']),
      (''reqId'', z_optional z_string),
      (''document'', z_optional (z_union (BtpServerResDocsSchema sc) z_string)),
      (''signature'', z_optional (BtpSignatureSchema sc)),
      (''encryption'', z_optional (BtpEncryptionSchema sc)),
      (''signedBy'', z_optional (identitySchema sc)),
      (''selector'', z_optional z_string)]"

text \<open>
  The refinement reads the parsed data with JavaScript truthiness: \<^verbatim>\<open>data.signature\<close>,
  \<^verbatim>\<open>!data.signedBy\<close>, \<^verbatim>\<open>!data.selector\<close>, \<^verbatim>\<open>data.encryption\<close>, and
  \<^verbatim>\<open>typeof data.document !== 'string'\<close>.
\<close>

definition superRefine :: "jsobj \<Rightarrow> string list list" where
  "superRefine data =
     (if truthy (field data ''signature'')
      then (if \<not> truthy (field data ''signedBy'') then [[''signedBy'']] else [])
           @ (if \<not> truthy (field data ''selector'') then [[''selector'']] else [])
      else [])
     @ (if truthy (field data ''encryption'') \<and> \<not> is_string (field data ''document'')
        then [[''document'']] else [])"

definition BtpServerResponseSchema :: "schemas \<Rightarrow> jsobj \<Rightarrow> string list list" where
  "BtpServerResponseSchema sc data =
     (let fields = z_object (response_shape sc) data;
          issues = map (\<lambda>(k, st). [k]) (filter (\<lambda>(k, st). st \<noteq> Valid) fields)
      in if merge_status (map snd fields) = Aborted then issues
         else issues @ superRefine data)"

text \<open>
  The result is the list of issue paths; the candidate is accepted when it is empty.
  \<open>shape_aborted\<close> says that some field had the wrong type, in which case the refinement
  did not run.
\<close>

definition accepts :: "schemas \<Rightarrow> jsobj \<Rightarrow> bool" where
  "accepts sc data = (BtpServerResponseSchema sc data = [])"

definition present :: "jsobj \<Rightarrow> string \<Rightarrow> bool" where
  "present data k = (field data k \<noteq> JUndefined)"

definition version_ok :: "jsobj \<Rightarrow> bool" where
  "version_ok data = (case field data ''version'' of JStr s \<Rightarrow> version_regex s | _ \<Rightarrow> False)"


definition shape_aborted :: "schemas \<Rightarrow> jsobj \<Rightarrow> bool" where
  "shape_aborted sc data = (merge_status (map snd (z_object (response_shape sc) data)) = Aborted)"

text \<open>Schemas and three candidates used to evaluate the validation.\<close>

definition object_schema :: "jsval \<Rightarrow> parse_status" where
  "object_schema v = (case v of JObj kvs \<Rightarrow> Valid | _ \<Rightarrow> Aborted)"

definition example_schemas :: schemas where
  "example_schemas =
     \<lparr>BtpSignatureSchema = object_schema,
      BtpEncryptionSchema = object_schema,
      identitySchema = z_string_check isValidIdentity,
      BtpServerResDocsSchema = object_schema,
      datetime = (\<lambda>s. s \<noteq> [])\<rparr>"

definition sealed_response :: jsobj where
  "sealed_response =
     [(''version'', JStr ''1.0.0''),
      (''status'', JObj [(''ok'', JBool True), (''code'', JNum 200)]),
      (''id'', JStr ''res1''),
      (''issuedAt'', JStr ''2025-01-01T00:00:00.000Z''),
      (''type'', JStr ''btps_response''),
      (''document'', JStr ''Y2lwaGVy''),
      (''signature'', JObj [(''algorithm'', JStr ''sha256''), (''value'', JStr ''sig''),
                           (''fingerprint'', JStr ''fp'')]),
      (''encryption'', JObj [(''algorithm'', JStr ''aes-256-cbc''), (''encryptedKey'', JStr ''k''),
                            (''iv'', JStr ''iv''), (''type'', JStr ''standardEncrypt'')]),
      (''signedBy'', JStr ''alice$a.example''),
      (''selector'', JStr ''btps1'')]"

definition mistyped_response :: jsobj where
  "mistyped_response =
     [(''version'', JStr ''1.0.0''),
      (''status'', JObj [(''ok'', JBool True), (''code'', JNum 200)]),
      (''id'', JStr ''res3''),
      (''issuedAt'', JStr ''2025-01-01T00:00:00.000Z''),
      (''type'', JStr ''other''),
      (''signature'', JObj [(''algorithm'', JStr ''sha256''), (''value'', JStr ''sig''),
                           (''fingerprint'', JStr ''fp'')])]"

definition broken_response :: jsobj where
  "broken_response =
     [(''version'', JStr ''1.0''),
      (''status'', JObj [(''ok'', JBool True), (''code'', JNum 200)]),
      (''id'', JStr ''res2''),
      (''issuedAt'', JStr ''2025-01-01T00:00:00.000Z''),
      (''type'', JStr ''btps_response''),
      (''document'', JObj [(''results'', JArr [])]),
      (''signature'', JObj [(''algorithm'', JStr ''sha256''), (''value'', JStr ''sig''),
                           (''fingerprint'', JStr ''fp'')]),
      (''encryption'', JObj [(''algorithm'', JStr ''aes-256-cbc''), (''encryptedKey'', JStr ''k''),
                            (''iv'', JStr ''iv''), (''type'', JStr ''standardEncrypt'')])]"

section \<open>Trust store (core/trust/storage/JsonTrustStore)\<close>

text \<open>
  Every method of the store is a function from the fields of the class and the state of
  the disk to a result, the new fields and the new disk; a thrown error is an \<open>Inl\<close>
  result. A method runs from start to end without another method of the same store running
  in between.
\<close>

text \<open>
  \<^verbatim>\<open>JSON.stringify\<close> leaves out the properties whose value is \<^verbatim>\<open>undefined\<close> and writes
  \<^verbatim>\<open>null\<close> for an \<^verbatim>\<open>undefined\<close> array element.
\<close>

fun to_json :: "jsval \<Rightarrow> jsval" where
  "to_json (JObj kvs) =
     JObj (map (\<lambda>(k, v). (k, to_json v)) (filter (\<lambda>(k, v). v \<noteq> JUndefined) kvs))"
| "to_json (JArr xs) = JArr (map (\<lambda>v. if v = JUndefined then JNull else to_json v) xs)"
| "to_json v = v"


definition record_to_json :: "jsobj \<Rightarrow> jsobj" where
  "record_to_json r = map (\<lambda>(k, v). (k, to_json v)) (filter (\<lambda>(k, v). v \<noteq> JUndefined) r)"

text \<open>
  The file system is the environment of the store: the file at \<^verbatim>\<open>filePath\<close>, the file at
  \<^verbatim>\<open>filePath + '.tmp'\<close>, the time stamp a file gets when it is written, and the set of
  operations that currently fail. A file holds text that is not JSON, a JSON array of
  records, or a JSON object whose properties are arrays of records; other JSON values are
  not modelled.
\<close>

datatype file_content =
    NotJson
  | JsonArray "jsobj list"
  | JsonObject "(string \<times> jsobj list) list"

record disk_file =
  content :: file_content
  mtimeMs :: int

datatype fs_op = Stat | ReadFile | WriteFile | Rename | Lock | Release

record disk =
  live :: "disk_file option"
  tmp :: "disk_file option"
  clock :: int
  failing :: "fs_op set"

text \<open>
  The fields of the class. \<^verbatim>\<open>recordMap\<close> is a JavaScript Map: an association list in
  insertion order, where setting an existing key replaces its value in place and setting a
  new key appends. \<open>writePending\<close> says that the debounced write is scheduled.
\<close>

record store =
  recordMap :: "(jsval \<times> jsobj) list"
  dirty :: bool
  entityName :: "string option"
  lastChangedMtime :: int
  writePending :: bool

datatype store_error =
    IoError fs_op
  | SyntaxError
  | NotIterable
  | IdNotAllowed
  | AlreadyExists jsval jsval
  | NotFound jsval jsval

type_synonym 'a outcome = "(store_error + 'a) \<times> store \<times> disk"

definition hasEntity :: "store \<Rightarrow> bool" where
  "hasEntity s = (case entityName s of None \<Rightarrow> False | Some n \<Rightarrow> n \<noteq> [])"

definition new_store :: "string option \<Rightarrow> store" where
  "new_store name =
     \<lparr>recordMap = [], dirty = False, entityName = name, lastChangedMtime = 0,
      writePending = False\<rparr>"

definition container :: "store \<Rightarrow> jsobj list \<Rightarrow> file_content" where
  "container s records =
     (if hasEntity s then JsonObject [(case entityName s of Some n \<Rightarrow> n | None \<Rightarrow> [], records)]
      else JsonArray records)"

text \<open>
  \<^verbatim>\<open>this.hasEntity ? raw?.[this.entityName] || [] : raw\<close>, followed by the iteration
  over the result. Reading the entity name from an array gives \<^verbatim>\<open>undefined\<close> (entity
  names are not names of array properties), and iterating over an object throws.
\<close>

definition records_of :: "store \<Rightarrow> file_content \<Rightarrow> store_error + jsobj list" where
  "records_of s raw =
     (case raw of
        NotJson \<Rightarrow> Inl SyntaxError
      | JsonArray rs \<Rightarrow> if hasEntity s then Inr [] else Inr rs
      | JsonObject props \<Rightarrow>
          if hasEntity s
          then (case entityName s of
                  None \<Rightarrow> Inr []
                | Some n \<Rightarrow> (case map_of props n of None \<Rightarrow> Inr [] | Some rs \<Rightarrow> Inr rs))
          else Inl NotIterable)"

definition load_records :: "jsobj list \<Rightarrow> (jsval \<times> jsobj) list" where
  "load_records records = foldl (\<lambda>m r. AList.update (field r ''id'') r m) [] records"

definition init :: "store \<Rightarrow> disk \<Rightarrow> unit outcome" where
  "init s d =
     (if live d = None \<and> WriteFile \<in> failing d then (Inl (IoError WriteFile), s, d)
      else
        (let d1 = (if live d = None
                   then d\<lparr>live := Some \<lparr>content = container s [], mtimeMs = clock d\<rparr>\<rparr>
                   else d)
         in case live d1 of
              None \<Rightarrow> (Inl (IoError ReadFile), s, d1)
            | Some f \<Rightarrow>
                if ReadFile \<in> failing d1 then (Inl (IoError ReadFile), s, d1)
                else (case records_of s (content f) of
                        Inl e \<Rightarrow> (Inl e, s, d1)
                      | Inr records \<Rightarrow> (Inr (), s\<lparr>recordMap := load_records records\<rparr>, d1))))"

text \<open>
  \<^verbatim>\<open>writeToFile\<close>: the flag is cleared first; the lock, the write of the temporary file,
  the rename and the stat can each throw, and the \<^verbatim>\<open>finally\<close> block releases the lock
  when it was acquired. Locking a file that does not exist fails. A failing release
  replaces the outcome of the block.
\<close>

definition release :: "disk \<Rightarrow> unit outcome \<Rightarrow> unit outcome" where
  "release d0 out =
     (case out of (r, s, d) \<Rightarrow> if Release \<in> failing d0 then (Inl (IoError Release), s, d) else out)"

definition writeToFile :: "store \<Rightarrow> disk \<Rightarrow> unit outcome" where
  "writeToFile s d =
     (if \<not> dirty s then (Inr (), s, d)
      else
        (let s1 = s\<lparr>dirty := False\<rparr> in
         if Lock \<in> failing d \<or> live d = None then (Inl (IoError Lock), s1, d)
         else release d
           (if WriteFile \<in> failing d then (Inl (IoError WriteFile), s1, d)
            else
              (let written = \<lparr>content = container s1 (map record_to_json (map snd (recordMap s1))),
                              mtimeMs = clock d\<rparr>;
                   d1 = d\<lparr>tmp := Some written\<rparr>
               in if Rename \<in> failing d then (Inl (IoError Rename), s1, d1)
                  else
                    (let d2 = d\<lparr>live := Some written, tmp := None\<rparr>
                     in if Stat \<in> failing d then (Inl (IoError Stat), s1, d2)
                        else (Inr (), s1\<lparr>lastChangedMtime := mtimeMs written\<rparr>, d2))))))"

definition flushNow :: "store \<Rightarrow> disk \<Rightarrow> unit outcome" where
  "flushNow s d = writeToFile s d"

definition flushAndReload :: "store \<Rightarrow> disk \<Rightarrow> unit outcome" where
  "flushAndReload s d =
     (case writeToFile s d of
        (Inl e, s1, d1) \<Rightarrow> (Inl e, s1, d1)
      | (Inr u, s1, d1) \<Rightarrow> init (s1\<lparr>recordMap := []\<rparr>) d1)"

definition reloadIfChanged :: "store \<Rightarrow> disk \<Rightarrow> unit outcome" where
  "reloadIfChanged s d =
     (case live d of
        None \<Rightarrow> (Inl (IoError Stat), s, d)
      | Some f \<Rightarrow>
          if Stat \<in> failing d then (Inl (IoError Stat), s, d)
          else
            (let mtime = mtimeMs f in
             if mtime \<noteq> lastChangedMtime s
             then (case flushAndReload s d of
                     (Inl e, s1, d1) \<Rightarrow> (Inl e, s1, d1)
                   | (Inr u, s1, d1) \<Rightarrow> (Inr (), s1\<lparr>lastChangedMtime := mtime\<rparr>, d1))
             else (Inr (), s, d)))"

text \<open>
  The prologue of the reading operations: load the file when the map is empty, then check
  the modification time.
\<close>

definition init_if_empty :: "store \<Rightarrow> disk \<Rightarrow> unit outcome" where
  "init_if_empty s d = (if recordMap s = [] then init s d else (Inr (), s, d))"

definition getById :: "store \<Rightarrow> disk \<Rightarrow> string \<Rightarrow> (jsobj option) outcome" where
  "getById s d computedId =
     (case init_if_empty s d of
        (Inl e, s1, d1) \<Rightarrow> (Inl e, s1, d1)
      | (Inr u, s1, d1) \<Rightarrow>
          (case reloadIfChanged s1 d1 of
             (Inl e, s2, d2) \<Rightarrow> (Inl e, s2, d2)
           | (Inr u, s2, d2) \<Rightarrow> (Inr (map_of (recordMap s2) (JStr computedId)), s2, d2)))"

text \<open>
  \<^verbatim>\<open>computeTrustId\<close> is imported from a file that is not part of the sources and is a
  parameter of \<open>create\<close>. The spread \<^verbatim>\<open>{...a, ...b}\<close> keeps the properties of \<open>a\<close> in
  their order, with the values of \<open>b\<close> where \<open>b\<close> has the key, followed by the new keys
  of \<open>b\<close>.
\<close>

definition spread :: "jsobj \<Rightarrow> jsobj \<Rightarrow> jsobj" where
  "spread a b = fold (\<lambda>(k, v). AList.update k v) b a"

definition mark_dirty :: "store \<Rightarrow> store" where
  "mark_dirty s = s\<lparr>dirty := True, writePending := True\<rparr>"

definition trust_id :: "(jsval \<Rightarrow> jsval \<Rightarrow> string) \<Rightarrow> jsobj \<Rightarrow> string option \<Rightarrow> string" where
  "trust_id computeTrustId record computedId =
     (case computedId of
        Some i \<Rightarrow> i
      | None \<Rightarrow> computeTrustId (field record ''senderId'') (field record ''receiverId''))"

definition create ::
  "(jsval \<Rightarrow> jsval \<Rightarrow> string) \<Rightarrow> store \<Rightarrow> disk \<Rightarrow> jsobj \<Rightarrow> string option \<Rightarrow> jsobj outcome" where
  "create computeTrustId s d record computedId =
     (if ''id'' \<in> fst ` set record then (Inl IdNotAllowed, s, d)
      else
        (let id = trust_id computeTrustId record computedId in
         case getById s d id of
           (Inl e, s1, d1) \<Rightarrow> (Inl e, s1, d1)
         | (Inr (Some existing), s1, d1) \<Rightarrow>
             (Inl (AlreadyExists (field record ''senderId'') (field record ''receiverId'')), s1, d1)
         | (Inr None, s1, d1) \<Rightarrow>
             (let newRecord = (''id'', JStr id) # record
              in (Inr newRecord,
                  mark_dirty (s1\<lparr>recordMap := AList.update (JStr id) newRecord (recordMap s1)\<rparr>),
                  d1))))"

definition update :: "store \<Rightarrow> disk \<Rightarrow> string \<Rightarrow> jsobj \<Rightarrow> jsobj outcome" where
  "update s d computedId patch =
     (case getById s d computedId of
        (Inl e, s1, d1) \<Rightarrow> (Inl e, s1, d1)
      | (Inr None, s1, d1) \<Rightarrow>
          (Inl (NotFound (field patch ''senderId'') (field patch ''receiverId'')), s1, d1)
      | (Inr (Some record), s1, d1) \<Rightarrow>
          (let updated = spread record patch
           in (Inr updated,
               mark_dirty (s1\<lparr>recordMap := AList.update (JStr computedId) updated (recordMap s1)\<rparr>),
               d1)))"

definition delete :: "store \<Rightarrow> disk \<Rightarrow> string \<Rightarrow> unit outcome" where
  "delete s d computedId =
     (case init_if_empty s d of
        (Inl e, s1, d1) \<Rightarrow> (Inl e, s1, d1)
      | (Inr u, s1, d1) \<Rightarrow>
          if JStr computedId \<in> fst ` set (recordMap s1)
          then (Inr (), mark_dirty (s1\<lparr>recordMap := AList.delete (JStr computedId) (recordMap s1)\<rparr>), d1)
          else (Inr (), s1, d1))"



text \<open>A store with one record waiting to be written, and a disk holding an empty container.\<close>

definition alice_to_bob :: jsobj where
  "alice_to_bob =
     [(''id'', JStr ''t1''), (''senderId'', JStr ''alice$a.example''),
      (''receiverId'', JStr ''bob$b.example''), (''status'', JStr ''accepted'')]"

definition pending_store :: store where
  "pending_store =
     \<lparr>recordMap = [(JStr ''t1'', alice_to_bob)], dirty = True,
      entityName = Some ''trusted_senders'', lastChangedMtime = 5, writePending = True\<rparr>"

definition healthy_disk :: disk where
  "healthy_disk =
     \<lparr>live = Some \<lparr>content = JsonObject [(''trusted_senders'', [])], mtimeMs = 5\<rparr>,
      tmp = None, clock = 9, failing = {}\<rparr>"


definition synced_store :: store where
  "synced_store =
     \<lparr>recordMap = [(JStr ''t1'', alice_to_bob)], dirty = False,
      entityName = Some ''trusted_senders'', lastChangedMtime = 5, writePending = False\<rparr>"



text \<open>A stand-in for the hash of the sender and receiver pair, and an unchanged disk.\<close>

definition pair_id :: "jsval \<Rightarrow> jsval \<Rightarrow> string" where
  "pair_id a b = (case (a, b) of (JStr x, JStr y) \<Rightarrow> x @ ''>'' @ y | _ \<Rightarrow> [])"

definition synced_disk :: disk where
  "synced_disk =
     \<lparr>live = Some \<lparr>content = JsonObject [(''trusted_senders'', [alice_to_bob])], mtimeMs = 5\<rparr>,
      tmp = None, clock = 9, failing = {}\<rparr>"

definition carol_request :: jsobj where
  "carol_request =
     [(''senderId'', JStr ''carol$c.example''), (''receiverId'', JStr ''bob$b.example''),
      (''status'', JStr ''requested'')]"

section \<open>Client connector (client/btpsClient)\<close>

text \<open>
  The class \<^verbatim>\<open>BtpsClient\<close> is not part of the sources; its unit tests are. The definitions
  of this section are modelled from the spec (its sections on the retry policy and on the
  client connector), and the unit tests are translated from the test file.
\<close>

text \<open>
  Modelled from the spec: the fields of the connector that the retry policy and the
  lifecycle read and write (\<^verbatim>\<open>BtpsClient\<close> is missing). \<open>maxRetries\<close> is the option of
  that name; numbers are integers.
\<close>

datatype phase =
    Idle | Resolving | Connecting | Ready | Sending | AwaitingResponse | Closing | Closed
  | Destroyed

datatype event_name = OnConnected | OnMessage | OnMessageSent | OnError | OnEnd | OnClose

record client =
  shouldRetry :: bool
  destroyed :: bool
  retries :: int
  maxRetries :: int
  phase :: phase
  socketOpen :: bool
  retryTimer :: bool
  backpressureQueue :: "string list"
  subscribers :: "(event_name \<times> nat) list"

text \<open>
  Modelled from the spec: the error handed to \<^verbatim>\<open>getRetryInfo\<close>, a syntax error of the
  wire parser or an error with a message (the error classes of \<^verbatim>\<open>BtpsClient\<close> are
  missing).
\<close>

datatype client_error = WireSyntaxError string | ClientError string

text \<open>
  Modelled from the spec: \<^verbatim>\<open>isNonRetryableError\<close> of the missing \<^verbatim>\<open>BtpsClient\<close>, the
  terminal classes of the retry policy: syntax errors on the wire, and the messages of the
  terminal configuration and crypto classes, with the messages that the unit test of the
  classifier lists.
\<close>

definition isNonRetryableError :: "client_error \<Rightarrow> bool" where
  "isNonRetryableError e =
     (case e of
        WireSyntaxError m \<Rightarrow> True
      | ClientError m \<Rightarrow>
          m \<in> set [''invalid identity'', ''invalid btpAddress'', ''invalid hostname'',
                   ''unsupported protocol'', ''signature verification failed'', ''destroyed''])"

text \<open>
  Modelled from the spec: the retry information that the missing \<^verbatim>\<open>BtpsClient\<close> returns
  and attaches to its events, without the delay, which the spec leaves open.
\<close>

record BTPSRetryInfo =
  willRetry :: bool
  retriesLeft :: int

text \<open>
  Modelled from the spec: \<^verbatim>\<open>getRetryInfo\<close> of the missing \<^verbatim>\<open>BtpsClient\<close>:
  willRetry is shouldRetry and not destroyed and retries below maxRetries and the error not
  terminal. The computation of retriesLeft is the parameter \<open>left\<close>: the spec gives the
  maximum of 0 and maxRetries minus retries for it, which is \<open>spec_retriesLeft\<close>, and the
  unit test of the function expects another value.
\<close>

type_synonym retries_left = "client \<Rightarrow> client_error option \<Rightarrow> int"

definition getRetryInfo :: "retries_left \<Rightarrow> client \<Rightarrow> client_error option \<Rightarrow> BTPSRetryInfo" where
  "getRetryInfo left c error =
     \<lparr>willRetry = (shouldRetry c \<and> \<not> destroyed c \<and> retries c < maxRetries c \<and>
                   (case error of None \<Rightarrow> True | Some e \<Rightarrow> \<not> isNonRetryableError e)),
      retriesLeft = left c error\<rparr>"

text \<open>
  Modelled from the spec: the formula of the spec for retriesLeft, the maximum of 0 and
  maxRetries minus retries (the computation in the missing \<^verbatim>\<open>BtpsClient\<close> is not known).
\<close>

definition spec_retriesLeft :: retries_left where
  "spec_retriesLeft c error = max 0 (maxRetries c - retries c)"






text \<open>
  Modelled from the spec: the events of the missing \<^verbatim>\<open>BtpsClient\<close>, and \<open>emit\<close>, which
  hands an event to every subscriber registered under its name, in order of registration.
\<close>

datatype event =
    Connected
  | Message string
  | MessageSent
  | Error client_error BTPSRetryInfo
  | End BTPSRetryInfo
  | Close

fun name_of :: "event \<Rightarrow> event_name" where
  "name_of Connected = OnConnected"
| "name_of (Message m) = OnMessage"
| "name_of MessageSent = OnMessageSent"
| "name_of (Error e info) = OnError"
| "name_of (End info) = OnEnd"
| "name_of Close = OnClose"

definition emit :: "client \<Rightarrow> event \<Rightarrow> (nat \<times> event) list" where
  "emit c ev = map (\<lambda>(n, h). (h, ev)) (filter (\<lambda>(n, h). n = name_of ev) (subscribers c))"

text \<open>
  Modelled from the spec: \<^verbatim>\<open>destroy\<close> of the missing \<^verbatim>\<open>BtpsClient\<close>: move to Destroyed,
  tear down the socket, cancel the retry timer, clear the queue and remove all subscribers;
  a second call changes nothing.
\<close>

definition destroy :: "client \<Rightarrow> client \<times> (nat \<times> event) list" where
  "destroy c =
     (if destroyed c then (c, [])
      else (c\<lparr>destroyed := True, phase := Destroyed, socketOpen := False, retryTimer := False,
              backpressureQueue := [], subscribers := []\<rparr>, []))"

text \<open>
  Modelled from the spec: \<^verbatim>\<open>connect\<close> of the missing \<^verbatim>\<open>BtpsClient\<close>: nothing after
  destroy; otherwise the caller's handlers are registered and the recipient is parsed, an
  invalid identity gives an error event and a valid one starts the resolution.
\<close>

definition connect ::
  "retries_left \<Rightarrow> client \<Rightarrow> string \<Rightarrow> (event_name \<times> nat) list
     \<Rightarrow> client \<times> (nat \<times> event) list" where
  "connect left c receiverId handlers =
     (if destroyed c then (c, [])
      else
        (let c1 = c\<lparr>subscribers := subscribers c @ handlers\<rparr> in
         case parseIdentity receiverId of
           None \<Rightarrow>
             (c1, emit c1 (Error (ClientError ''invalid identity'')
                            (getRetryInfo left c1 (Some (ClientError ''invalid identity'')))))
         | Some p \<Rightarrow> (c1\<lparr>phase := Resolving\<rparr>, [])))"

text \<open>
  Modelled from the spec: \<^verbatim>\<open>send\<close> and \<^verbatim>\<open>end\<close> of the missing \<^verbatim>\<open>BtpsClient\<close>: a send
  from Ready writes the line or, when the socket's buffer is full, appends it to the queue;
  end closes the connection and emits the end event.
\<close>

definition send :: "client \<Rightarrow> string \<Rightarrow> bool \<Rightarrow> client \<times> (nat \<times> event) list" where
  "send c line writable =
     (if destroyed c \<or> phase c \<noteq> Ready then (c, [])
      else if writable then (c\<lparr>phase := AwaitingResponse\<rparr>, emit c MessageSent)
      else (c\<lparr>backpressureQueue := backpressureQueue c @ [line]\<rparr>, []))"

definition end_connection :: "retries_left \<Rightarrow> client \<Rightarrow> client \<times> (nat \<times> event) list" where
  "end_connection left c =
     (if destroyed c then (c, [])
      else (c\<lparr>phase := Closed, socketOpen := False\<rparr>, emit c (End (getRetryInfo left c None))))"

text \<open>
  Modelled from the spec: what the resolver, the socket and the timers report to the
  missing \<^verbatim>\<open>BtpsClient\<close>, and its reaction: the transitions of the connector's state
  machine with the events they emit. Destroyed is a sink.
\<close>

datatype signal =
    Resolved bool
  | SecureConnect
  | ConnectionTimeout
  | SocketError string
  | Line string bool
  | RemoteEnd
  | SocketClosed

definition on_signal ::
  "retries_left \<Rightarrow> client \<Rightarrow> signal \<Rightarrow> client \<times> (nat \<times> event) list" where
  "on_signal left c sg =
     (if destroyed c then (c, [])
      else
        (case sg of
           Resolved found \<Rightarrow>
             if found then (c\<lparr>phase := Connecting, socketOpen := True\<rparr>, [])
             else (c, emit c (Error (ClientError ''DNS resolution failed'')
                               (getRetryInfo left c (Some (ClientError ''DNS resolution failed'')))))
         | SecureConnect \<Rightarrow> (c\<lparr>phase := Ready\<rparr>, emit c Connected)
         | ConnectionTimeout \<Rightarrow>
             if phase c = Ready then (c, [])
             else (c\<lparr>socketOpen := False\<rparr>,
                   emit c (Error (ClientError ''connection timeout'')
                            (getRetryInfo left c (Some (ClientError ''connection timeout'')))))
         | SocketError m \<Rightarrow>
             (c, emit c (Error (ClientError m) (getRetryInfo left c (Some (ClientError m)))))
         | Line l parses \<Rightarrow>
             if parses then (c\<lparr>phase := Ready\<rparr>, emit c (Message l))
             else (c, emit c (Error (WireSyntaxError l) (getRetryInfo left c (Some (WireSyntaxError l)))))
         | RemoteEnd \<Rightarrow> (c\<lparr>phase := Closed, socketOpen := False\<rparr>, emit c (End (getRetryInfo left c None)))
         | SocketClosed \<Rightarrow> (c\<lparr>socketOpen := False\<rparr>, emit c Close)))"

text \<open>
  Modelled from the spec: a run of the missing \<^verbatim>\<open>BtpsClient\<close>: calls of the caller and
  signals of the environment in any order, with the events delivered along the way.
\<close>

datatype action =
    CallConnect string "(event_name \<times> nat) list"
  | CallSend string bool
  | CallEnd
  | CallDestroy
  | Signal signal

fun step :: "retries_left \<Rightarrow> client \<Rightarrow> action \<Rightarrow> client \<times> (nat \<times> event) list" where
  "step left c (CallConnect r hs) = connect left c r hs"
| "step left c (CallSend l w) = send c l w"
| "step left c CallEnd = end_connection left c"
| "step left c CallDestroy = destroy c"
| "step left c (Signal sg) = on_signal left c sg"

fun run :: "retries_left \<Rightarrow> client \<Rightarrow> action list \<Rightarrow> client \<times> (nat \<times> event) list" where
  "run left c [] = (c, [])"
| "run left c (a # as) =
     (case step left c a of
        (c1, out1) \<Rightarrow> (case run left c1 as of (c2, out2) \<Rightarrow> (c2, out1 @ out2)))"


text \<open>
  A client as the tests build it, connected, with two subscribers, and the same client
  while it resolves its recipient.
\<close>

definition ready_client :: client where
  "ready_client =
     \<lparr>shouldRetry = True, destroyed = False, retries = 0, maxRetries = 2, phase = Ready,
      socketOpen = True, retryTimer = False, backpressureQueue = [''queued''],
      subscribers = [(OnError, 1), (OnEnd, 2)]\<rparr>"


section \<open>Properties of splitting\<close>

lemma split_on_not_Nil: "split_on c s \<noteq> []"
  by (induction s) (auto split: list.splits)

lemma split_on_no_sep: "c \<notin> set a \<Longrightarrow> split_on c a = [a]"
  by (induction a) auto

lemma split_on_append: "c \<notin> set a \<Longrightarrow> split_on c (a @ c # t) = a # split_on c t"
  by (induction a) auto

lemma join_split_on: "join_with [c] (split_on c s) = s"
proof (induction s)
  case Nil
  show ?case by simp
next
  case (Cons x xs)
  obtain w ws where sp: "split_on c xs = w # ws"
    using split_on_not_Nil by (cases "split_on c xs") auto
  show ?case
    using Cons sp by (cases ws) auto
qed

lemma split_on_pieces: "w \<in> set (split_on c s) \<Longrightarrow> c \<notin> set w"
proof (induction s arbitrary: w)
  case Nil
  then show ?case by simp
next
  case (Cons x xs)
  then show ?case
    by (auto split: if_splits list.splits)
qed

lemma split_two_decompose:
  assumes "split_on c s = a # d # ws"
  shows "\<exists>rest. s = a @ c # d @ rest \<and> (rest = [] \<or> (\<exists>r. rest = c # r))"
proof -
  have "s = join_with [c] (a # d # ws)"
    using join_split_on [of c s] assms by simp
  then show ?thesis by (cases ws) auto
qed

lemma split_two_compose:
  assumes "c \<notin> set a" "c \<notin> set d" "rest = [] \<or> (\<exists>r. rest = c # r)"
  shows "\<exists>ws. split_on c (a @ c # d @ rest) = a # d # ws"
proof (cases rest)
  case Nil
  then show ?thesis using assms by (simp add: split_on_append split_on_no_sep)
next
  case (Cons r rs)
  then have "r = c" using assms by auto
  then show ?thesis using assms Cons by (simp add: split_on_append)
qed

lemma parseIdentity_Some_iff_split:
  "parseIdentity s = Some p \<longleftrightarrow>
     (accountName p \<noteq> [] \<and> domainName p \<noteq> [] \<and>
      (\<exists>rest. split_on CHR ''$'' s = accountName p # domainName p # rest))"
  by (cases p) (auto simp: parseIdentity_def split: list.splits)

lemma parseIdentity_Some_iff:
  "parseIdentity s = Some p \<longleftrightarrow>
     (accountName p \<noteq> [] \<and> domainName p \<noteq> [] \<and>
      CHR ''$'' \<notin> set (accountName p) \<and> CHR ''$'' \<notin> set (domainName p) \<and>
      (\<exists>rest. s = accountName p @ CHR ''$'' # domainName p @ rest \<and>
              (rest = [] \<or> (\<exists>r. rest = CHR ''$'' # r))))"
  (is "?L \<longleftrightarrow> ?R")
proof
  assume ?L
  then obtain ws where ne: "accountName p \<noteq> []" "domainName p \<noteq> []"
    and sp: "split_on CHR ''$'' s = accountName p # domainName p # ws"
    by (auto simp: parseIdentity_Some_iff_split)
  have "accountName p \<in> set (split_on CHR ''$'' s)" "domainName p \<in> set (split_on CHR ''$'' s)"
    using sp by simp_all
  then have "CHR ''$'' \<notin> set (accountName p)" "CHR ''$'' \<notin> set (domainName p)"
    by (simp_all add: split_on_pieces)
  with ne split_two_decompose [OF sp] show ?R by simp
next
  assume r: ?R
  then obtain rest where s: "s = accountName p @ CHR ''$'' # domainName p @ rest"
    and rest: "rest = [] \<or> (\<exists>r. rest = CHR ''$'' # r)"
    by blast
  from r have "\<exists>ws. split_on CHR ''$'' (accountName p @ CHR ''$'' # domainName p @ rest)
                 = accountName p # domainName p # ws"
    using rest by (intro split_two_compose) simp_all
  with r s show ?L by (simp add: parseIdentity_Some_iff_split)
qed

lemma single_sep_rest_empty:
  assumes "count_list (a @ c # d @ rest) c = 1" "rest = [] \<or> (\<exists>r. rest = c # r)"
  shows "rest = []"
  using assms by auto

section \<open>parseIdentity\<close>

text \<open>
  C4, as stated: parseIdentity returns an identity exactly when the string is two
  non-empty halves around a single \<open>$\<close>, and the halves recompose to the input. The code
  keeps the first two pieces of the split and drops the rest, so a string with a second
  \<open>$\<close> is accepted and does not recompose.
\<close>

theorem parseIdentity_second_dollar_accepted:
  "parseIdentity ''a$b$c'' = Some \<lparr>accountName = ''a'', domainName = ''b''\<rparr>
   \<and> ''a'' @ ''$'' @ ''b'' \<noteq> ''a$b$c''"
  by (simp add: parseIdentity_def)

text \<open>
  C4, amended: parseIdentity returns an identity exactly when the text before the first
  \<open>$\<close> and the text between the first \<open>$\<close> and the second (or the end of the string)
  are both non-empty, and these two pieces are the account and the domain it returns;
  whatever follows a second \<open>$\<close> is dropped. When the string has exactly one \<open>$\<close> the
  result recomposes to the input, and a string with no \<open>$\<close> gives none.
\<close>

theorem parseIdentity_first_two_pieces:
  "(parseIdentity s = Some p \<longleftrightarrow>
     (accountName p \<noteq> [] \<and> domainName p \<noteq> [] \<and>
      CHR ''$'' \<notin> set (accountName p) \<and> CHR ''$'' \<notin> set (domainName p) \<and>
      (\<exists>rest. s = accountName p @ CHR ''$'' # domainName p @ rest \<and>
              (rest = [] \<or> (\<exists>r. rest = CHR ''$'' # r)))))
   \<and> (parseIdentity s = Some p \<and> count_list s CHR ''$'' = 1
        \<longrightarrow> accountName p @ ''$'' @ domainName p = s)
   \<and> (CHR ''$'' \<notin> set s \<longrightarrow> parseIdentity s = None)"
proof (intro conjI impI)
  show "parseIdentity s = Some p \<longleftrightarrow>
     (accountName p \<noteq> [] \<and> domainName p \<noteq> [] \<and>
      CHR ''$'' \<notin> set (accountName p) \<and> CHR ''$'' \<notin> set (domainName p) \<and>
      (\<exists>rest. s = accountName p @ CHR ''$'' # domainName p @ rest \<and>
              (rest = [] \<or> (\<exists>r. rest = CHR ''$'' # r))))"
    by (rule parseIdentity_Some_iff)
next
  assume a: "parseIdentity s = Some p \<and> count_list s CHR ''$'' = 1"
  then obtain rest where s: "s = accountName p @ CHR ''$'' # domainName p @ rest"
    and rest: "rest = [] \<or> (\<exists>r. rest = CHR ''$'' # r)"
    using parseIdentity_Some_iff [of s p] by blast
  have "rest = []"
    using single_sep_rest_empty [of "accountName p" "CHR ''$''" "domainName p" rest] a s rest
    by simp
  with s show "accountName p @ ''$'' @ domainName p = s" by simp
next
  assume "CHR ''$'' \<notin> set s"
  then show "parseIdentity s = None"
    by (simp add: parseIdentity_def split_on_no_sep)
qed

theorem parseIdentity_first_two_pieces_witness:
  "parseIdentity ''alice$a.example'' = Some \<lparr>accountName = ''alice'', domainName = ''a.example''\<rparr>
   \<and> ''alice'' @ ''$'' @ ''a.example'' = ''alice$a.example''
   \<and> parseIdentity ''badidentity'' = None"
  using parseIdentity_first_two_pieces
          [of "''alice$a.example''" "\<lparr>accountName = ''alice'', domainName = ''a.example''\<rparr>"]
        parseIdentity_first_two_pieces [of "''badidentity''" "\<lparr>accountName = ''x'', domainName = ''y''\<rparr>"]
  by simp


section \<open>getHostAndSelector\<close>









section \<open>getDnsIdentityParts\<close>

text \<open>
  The key is published as the PEM body without its header lines, which is what
  \<open>pemToBase64\<close> produces; base64 padding stays in it.
\<close>

lemma pemToBase64_keeps_padding:
  "pemToBase64 (base64ToPem ''QUJDRA=='') = ''QUJDRA==''"
  by (simp add: pemToBase64_def base64ToPem_def trim_def is_white_space_def
        is_line_terminator_def)

lemma getDnsIdentityParts_unpadded_key:
  "getDnsIdentityParts example_dns ''alice$a.example'' ''btps2'' (Some Pem)
     = Inr (Some (Part (base64ToPem ''QUJD'')))"
  by (simp add: getDnsIdentityParts_def parseIdentity_def BTPS_NAME_SPACE_def example_dns_def
        txt_parts_def txt_pairs_def fromEntries_def trim_def is_white_space_def
        List.map_filter_def)

text \<open>
  Any value with a \<open>=\<close> in it is lost in the same way: the piece splits into three parts
  or more, so the record has no \<open>p\<close> entry and the lookup of the PEM raises.
\<close>

lemma length_split_on: "length (split_on c s) = Suc (count_list s c)"
  by (induction s) (auto split: list.splits simp: split_on_not_Nil)

lemma count_list_dropWhile:
  "\<not> P c \<Longrightarrow> count_list (dropWhile P s) c = count_list s c"
  by (induction s) auto

lemma count_list_rev_eq: "count_list (rev s) c = count_list s c"
  by (induction s) auto

lemma count_list_trim:
  "\<not> is_white_space c \<Longrightarrow> count_list (trim s) c = count_list s c"
  by (simp add: trim_def count_list_rev_eq count_list_dropWhile)

lemma count_list_pos: "c \<in> set s \<Longrightarrow> 0 < count_list s c"
  by (induction s) auto

lemma padded_piece_dropped:
  assumes "CHR ''='' \<in> set b"
  shows "(case map trim (split_on CHR ''='' (trim ('' p='' @ b))) of
            [k, v] \<Rightarrow> Some (k, v) | _ \<Rightarrow> None) = None"
proof -
  have "\<not> is_white_space CHR ''=''"
    by (simp add: is_white_space_def)
  then have "count_list (trim ('' p='' @ b)) CHR ''='' = count_list ('' p='' @ b) CHR ''=''"
    by (rule count_list_trim)
  also have "\<dots> = Suc (count_list b CHR ''='')"
    by simp
  finally have "length (map trim (split_on CHR ''='' (trim ('' p='' @ b))))
                  = Suc (Suc (count_list b CHR ''=''))"
    by (simp add: length_split_on)
  moreover have "0 < count_list b CHR ''=''"
    using assms by (rule count_list_pos)
  ultimately have "3 \<le> length (map trim (split_on CHR ''='' (trim ('' p='' @ b))))"
    by simp
  then show ?thesis
    by (cases "map trim (split_on CHR ''='' (trim ('' p='' @ b)))" rule: remdups_adj.cases)
       (auto split: list.splits)
qed

lemma padded_record_has_no_key:
  assumes "CHR ''='' \<in> set b" "CHR '';'' \<notin> set b"
  shows "txt_parts [[''v=1.0.0; k=rsa; p='' @ b]] ''p'' = None"
proof -
  have sp: "split_on CHR '';'' (''v=1.0.0; k=rsa; p='' @ b) = [''v=1.0.0'', '' k=rsa'', '' p='' @ b]"
    using assms(2)
      split_on_append [of "CHR '';''" "''v=1.0.0''" "'' k=rsa; p='' @ b"]
      split_on_append [of "CHR '';''" "'' k=rsa''" "'' p='' @ b"]
      split_on_no_sep [of "CHR '';''" "'' p='' @ b"]
    by simp
  have a: "(case map trim (split_on CHR ''='' (trim ''v=1.0.0'')) of
            [k, v] \<Rightarrow> Some (k, v) | _ \<Rightarrow> None) = Some (''v'', ''1.0.0'')"
    and b: "(case map trim (split_on CHR ''='' (trim '' k=rsa'')) of
            [k, v] \<Rightarrow> Some (k, v) | _ \<Rightarrow> None) = Some (''k'', ''rsa'')"
    by (simp_all add: trim_def is_white_space_def)
  have "txt_pairs (''v=1.0.0; k=rsa; p='' @ b) = [(''v'', ''1.0.0''), (''k'', ''rsa'')]"
    unfolding txt_pairs_def sp
    using a b padded_piece_dropped [OF assms(1)]
    by (simp add: List.map_filter_def)
  then show ?thesis
    by (simp add: txt_parts_def fromEntries_def)
qed

lemma padded_key_lookup_raises:
  assumes "CHR ''='' \<in> set b" "CHR '';'' \<notin> set b"
    and "parseIdentity identity = Some pid"
    and "resolveTxt (sel @ ''.'' @ BTPS_NAME_SPACE @ ''.'' @ accountName pid @ ''.'' @ domainName pid)
           = Inr [[''v=1.0.0; k=rsa; p='' @ b]]"
  shows "getDnsIdentityParts resolveTxt identity sel (Some Pem)
           = Inl (DnsResolutionFailed (domainName pid) TypeError)"
  using assms(3,4) padded_record_has_no_key [OF assms(1,2)]
  by (simp add: getDnsIdentityParts_def)

text \<open>
  C3 at the record \<open>v=1.0.0; k=rsa; p=QUJDRA==\<close>: the piece \<open>p=QUJDRA==\<close> splits on
  \<open>=\<close> into four parts and is dropped, the record has no \<open>p\<close> entry, and the lookup of
  the PEM raises instead of returning the key.
\<close>

theorem getDnsIdentityParts_padded_key_raises:
  "txt_parts [[''v=1.0.0; k=rsa; p=QUJDRA=='']] ''p'' = None
   \<and> getDnsIdentityParts example_dns ''alice$a.example'' ''btps1'' (Some Pem)
       = Inl (DnsResolutionFailed ''a.example'' TypeError)"
  by (simp add: getDnsIdentityParts_def parseIdentity_def BTPS_NAME_SPACE_def example_dns_def
        txt_parts_def txt_pairs_def fromEntries_def trim_def is_white_space_def
        List.map_filter_def)

section \<open>Server response schema\<close>

lemma z_object_member:
  "(k, schema) \<in> set shape \<Longrightarrow> (k, schema (field data k)) \<in> set (z_object shape data)"
  by (force simp: z_object_def)

lemma issue_of_field:
  assumes "(k, schema) \<in> set (response_shape sc)" "schema (field data k) \<noteq> Valid"
  shows "[k] \<in> set (BtpServerResponseSchema sc data)"
proof -
  have "(k, schema (field data k)) \<in> set (z_object (response_shape sc) data)"
    using assms(1) by (rule z_object_member)
  with assms(2) have "[k] \<in> set (map (\<lambda>(k, st). [k])
         (filter (\<lambda>(k, st). st \<noteq> Valid) (z_object (response_shape sc) data)))"
    by force
  then show ?thesis
    by (simp add: BtpServerResponseSchema_def Let_def)
qed

lemma accepted_field_valid:
  assumes "accepts sc data" "(k, schema) \<in> set (response_shape sc)"
  shows "schema (field data k) = Valid"
  using issue_of_field [OF assms(2), of data] assms(1) by (auto simp: accepts_def)

lemma all_valid_merge:
  "filter (\<lambda>(k, st). st \<noteq> Valid) fs = [] \<Longrightarrow> merge_status (map snd fs) = Valid"
  by (auto simp: merge_status_def filter_empty_conv)

lemma accepted_superRefine:
  assumes "accepts sc data"
  shows "superRefine data = []"
proof -
  let ?fields = "z_object (response_shape sc) data"
  have "filter (\<lambda>(k, st). st \<noteq> Valid) ?fields = []"
    using assms by (simp add: accepts_def BtpServerResponseSchema_def Let_def split: if_splits)
  then have "merge_status (map snd ?fields) = Valid"
    by (rule all_valid_merge)
  with assms show ?thesis
    by (simp add: accepts_def BtpServerResponseSchema_def Let_def)
qed

lemma not_aborted_superRefine:
  assumes "merge_status (map snd (z_object (response_shape sc) data)) \<noteq> Aborted"
  shows "set (superRefine data) \<subseteq> set (BtpServerResponseSchema sc data)"
  using assms by (simp add: BtpServerResponseSchema_def Let_def)

lemma version_status:
  "z_string_check version_regex (field data ''version'') = Valid \<longleftrightarrow> version_ok data"
  by (simp add: z_string_check_def version_ok_def split: jsval.splits)



lemma dot_not_digit: "\<not> is_digit CHR ''.''"
  by (simp add: is_digit_def)

lemma digits_no_dot: "list_all is_digit a \<Longrightarrow> CHR ''.'' \<notin> set a"
  using dot_not_digit by (metis list_all_iff)

lemma version_regex_language:
  "version_regex s \<longleftrightarrow>
     (\<exists>a b c. a \<noteq> [] \<and> b \<noteq> [] \<and> c \<noteq> [] \<and>
              list_all is_digit a \<and> list_all is_digit b \<and> list_all is_digit c \<and>
              s = a @ ''.'' @ b @ ''.'' @ c)"
  (is "?L \<longleftrightarrow> ?R")
proof
  assume l: ?L
  obtain ws where ws: "split_on CHR ''.'' s = ws" by simp
  from l ws obtain a b c where sp: "ws = [a, b, c]"
    by (cases ws rule: remdups_adj.cases) (simp_all add: version_regex_def split: list.splits)
  from l ws sp have ok: "a \<noteq> []" "b \<noteq> []" "c \<noteq> []"
      "list_all is_digit a" "list_all is_digit b" "list_all is_digit c"
    by (simp_all add: version_regex_def)
  have "s = join_with ''.'' [a, b, c]"
    using join_split_on [of "CHR ''.''" s] sp ws by simp
  then have "s = a @ ''.'' @ b @ ''.'' @ c" by simp
  with ok show ?R by blast
next
  assume ?R
  then obtain a b c where ok: "a \<noteq> []" "b \<noteq> []" "c \<noteq> []"
      "list_all is_digit a" "list_all is_digit b" "list_all is_digit c"
    and s: "s = a @ ''.'' @ b @ ''.'' @ c"
    by blast
  have "split_on CHR ''.'' (a @ CHR ''.'' # b @ CHR ''.'' # c) = [a, b, c]"
    using ok by (simp add: split_on_append split_on_no_sep digits_no_dot)
  with ok s show ?L by (simp add: version_regex_def)
qed

lemma not_aborted_field:
  assumes "\<not> shape_aborted sc data" "(k, schema) \<in> set (response_shape sc)"
  shows "schema (field data k) \<noteq> Aborted"
proof -
  have "(k, schema (field data k)) \<in> set (z_object (response_shape sc) data)"
    using assms(2) by (rule z_object_member)
  then have "schema (field data k) \<in> set (map snd (z_object (response_shape sc) data))"
    by force
  moreover have "Aborted \<notin> set (map snd (z_object (response_shape sc) data))"
    using assms(1) by (simp add: shape_aborted_def merge_status_def split: if_splits)
  ultimately show ?thesis by metis
qed

lemma shape_members:
  "(''signature'', z_optional (BtpSignatureSchema sc)) \<in> set (response_shape sc)"
  "(''encryption'', z_optional (BtpEncryptionSchema sc)) \<in> set (response_shape sc)"
  "(''version'', z_string_check version_regex) \<in> set (response_shape sc)"
  by (simp_all add: response_shape_def)

lemma present_object_truthy:
  assumes "\<forall>v. schema v \<noteq> Aborted \<longrightarrow> (\<exists>kvs. v = JObj kvs)"
    and "z_optional schema (field data k) \<noteq> Aborted" "present data k"
  shows "truthy (field data k)"
  using assms by (auto simp: z_optional_def present_def)

lemma truthy_present: "truthy (field data k) \<Longrightarrow> present data k"
  by (auto simp: present_def)

lemma superRefine_empty:
  "superRefine data = [] \<longleftrightarrow>
     (truthy (field data ''signature'') \<longrightarrow>
        truthy (field data ''signedBy'') \<and> truthy (field data ''selector''))
     \<and> (truthy (field data ''encryption'') \<longrightarrow> is_string (field data ''document''))"
  by (simp add: superRefine_def)

lemma superRefine_paths:
  "[''signedBy''] \<in> set (superRefine data)
     \<longleftrightarrow> truthy (field data ''signature'') \<and> \<not> truthy (field data ''signedBy'')"
  "[''selector''] \<in> set (superRefine data)
     \<longleftrightarrow> truthy (field data ''signature'') \<and> \<not> truthy (field data ''selector'')"
  "[''document''] \<in> set (superRefine data)
     \<longleftrightarrow> truthy (field data ''encryption'') \<and> \<not> is_string (field data ''document'')"
  by (simp_all add: superRefine_def)

text \<open>
  C6, as stated: violating one of the three invariants gives an error that names the
  offending field. This candidate has a signature and neither signedBy nor selector, and
  its \<open>type\<close> is not one of the two allowed names: the object is aborted, the refinement
  does not run, and the only issue is the one at \<open>type\<close>.
\<close>

theorem refinement_skipped_on_wrong_type:
  "present mistyped_response ''signature''
   \<and> \<not> present mistyped_response ''signedBy''
   \<and> \<not> present mistyped_response ''selector''
   \<and> BtpServerResponseSchema example_schemas mistyped_response = [[''type'']]"
  by (simp add: present_def BtpServerResponseSchema_def z_object_def response_shape_def
        example_schemas_def object_schema_def z_string_check_def z_string_def z_enum_def
        z_optional_def z_union_def z_boolean_def z_number_def BtpStatusSchema_def
        merge_status_def superRefine_def field_def version_regex_def is_digit_def
        mistyped_response_def)

text \<open>
  C6, amended: when the imported signature and encryption schemas accept objects only, an
  accepted candidate satisfies the three invariants: encryption present implies the
  document is a string, signature present implies signedBy and selector present, and the
  version is a string matching the regular expression. A candidate that breaks one of the
  three is rejected with at least one issue. A version that does not match always gives
  an issue at path \<open>version\<close>; when no field has a wrong type, a signature without
  signedBy or without selector gives an issue at \<open>signedBy\<close> or \<open>selector\<close>, and
  encryption with a document that is not a string gives an issue at \<open>document\<close>.
\<close>

theorem BtpServerResponseSchema_cross_field:
  assumes sig: "\<forall>v. BtpSignatureSchema sc v \<noteq> Aborted \<longrightarrow> (\<exists>kvs. v = JObj kvs)"
    and enc: "\<forall>v. BtpEncryptionSchema sc v \<noteq> Aborted \<longrightarrow> (\<exists>kvs. v = JObj kvs)"
  shows "(accepts sc data \<longrightarrow>
            (present data ''encryption'' \<longrightarrow> is_string (field data ''document'')) \<and>
            (present data ''signature'' \<longrightarrow> present data ''signedBy'' \<and> present data ''selector'') \<and>
            version_ok data)
       \<and> (\<not> ((present data ''encryption'' \<longrightarrow> is_string (field data ''document'')) \<and>
               (present data ''signature'' \<longrightarrow> present data ''signedBy'' \<and> present data ''selector'') \<and>
               version_ok data)
            \<longrightarrow> BtpServerResponseSchema sc data \<noteq> [])
       \<and> (\<not> version_ok data \<longrightarrow> [''version''] \<in> set (BtpServerResponseSchema sc data))
       \<and> (\<not> shape_aborted sc data \<and> present data ''signature'' \<and> \<not> present data ''signedBy''
            \<longrightarrow> [''signedBy''] \<in> set (BtpServerResponseSchema sc data))
       \<and> (\<not> shape_aborted sc data \<and> present data ''signature'' \<and> \<not> present data ''selector''
            \<longrightarrow> [''selector''] \<in> set (BtpServerResponseSchema sc data))
       \<and> (\<not> shape_aborted sc data \<and> present data ''encryption'' \<and> \<not> is_string (field data ''document'')
            \<longrightarrow> [''document''] \<in> set (BtpServerResponseSchema sc data))"
proof -
  have inv: "(present data ''encryption'' \<longrightarrow> is_string (field data ''document'')) \<and>
            (present data ''signature'' \<longrightarrow> present data ''signedBy'' \<and> present data ''selector'') \<and>
            version_ok data" if acc: "accepts sc data"
  proof (intro conjI impI)
    have sr: "superRefine data = []" using acc by (rule accepted_superRefine)
    show "version_ok data"
      using accepted_field_valid [OF acc shape_members(3)] by (simp add: version_status)
    {
      assume p: "present data ''encryption''"
      have "z_optional (BtpEncryptionSchema sc) (field data ''encryption'') \<noteq> Aborted"
        using accepted_field_valid [OF acc shape_members(2)] by simp
      then have "truthy (field data ''encryption'')"
        using present_object_truthy [OF enc _ p] by simp
      with sr show "is_string (field data ''document'')"
        by (simp add: superRefine_empty)
    }
    {
      assume p: "present data ''signature''"
      have "z_optional (BtpSignatureSchema sc) (field data ''signature'') \<noteq> Aborted"
        using accepted_field_valid [OF acc shape_members(1)] by simp
      then have "truthy (field data ''signature'')"
        using present_object_truthy [OF sig _ p] by simp
      with sr have "truthy (field data ''signedBy'') \<and> truthy (field data ''selector'')"
        by (simp add: superRefine_empty)
      then show "present data ''signedBy''" "present data ''selector''"
        by (simp_all add: truthy_present)
    }
  qed
  have rej: "BtpServerResponseSchema sc data \<noteq> []"
    if "\<not> ((present data ''encryption'' \<longrightarrow> is_string (field data ''document'')) \<and>
            (present data ''signature'' \<longrightarrow> present data ''signedBy'' \<and> present data ''selector'') \<and>
            version_ok data)"
    using that inv unfolding accepts_def by blast
  have paths: "(\<not> version_ok data \<longrightarrow> [''version''] \<in> set (BtpServerResponseSchema sc data))
       \<and> (\<not> shape_aborted sc data \<and> present data ''signature'' \<and> \<not> present data ''signedBy''
            \<longrightarrow> [''signedBy''] \<in> set (BtpServerResponseSchema sc data))
       \<and> (\<not> shape_aborted sc data \<and> present data ''signature'' \<and> \<not> present data ''selector''
            \<longrightarrow> [''selector''] \<in> set (BtpServerResponseSchema sc data))
       \<and> (\<not> shape_aborted sc data \<and> present data ''encryption'' \<and> \<not> is_string (field data ''document'')
            \<longrightarrow> [''document''] \<in> set (BtpServerResponseSchema sc data))"
  proof (intro conjI impI)
  assume "\<not> version_ok data"
  then have "z_string_check version_regex (field data ''version'') \<noteq> Valid"
    by (simp add: version_status)
  then show "[''version''] \<in> set (BtpServerResponseSchema sc data)"
    using issue_of_field [OF shape_members(3)] by simp
next
  assume a: "\<not> shape_aborted sc data \<and> present data ''signature'' \<and> \<not> present data ''signedBy''"
  then have "truthy (field data ''signature'')"
    using present_object_truthy [OF sig not_aborted_field [OF _ shape_members(1)]] by simp
  moreover have "\<not> truthy (field data ''signedBy'')"
    using a truthy_present by blast
  ultimately have "[''signedBy''] \<in> set (superRefine data)"
    by (simp add: superRefine_paths)
  then show "[''signedBy''] \<in> set (BtpServerResponseSchema sc data)"
    using a not_aborted_superRefine [of sc data] by (auto simp: shape_aborted_def)
next
  assume a: "\<not> shape_aborted sc data \<and> present data ''signature'' \<and> \<not> present data ''selector''"
  then have "truthy (field data ''signature'')"
    using present_object_truthy [OF sig not_aborted_field [OF _ shape_members(1)]] by simp
  moreover have "\<not> truthy (field data ''selector'')"
    using a truthy_present by blast
  ultimately have "[''selector''] \<in> set (superRefine data)"
    by (simp add: superRefine_paths)
  then show "[''selector''] \<in> set (BtpServerResponseSchema sc data)"
    using a not_aborted_superRefine [of sc data] by (auto simp: shape_aborted_def)
next
  assume a: "\<not> shape_aborted sc data \<and> present data ''encryption'' \<and> \<not> is_string (field data ''document'')"
  then have "truthy (field data ''encryption'')"
    using present_object_truthy [OF enc not_aborted_field [OF _ shape_members(2)]] by simp
  with a have "[''document''] \<in> set (superRefine data)"
    by (simp add: superRefine_paths)
  then show "[''document''] \<in> set (BtpServerResponseSchema sc data)"
    using a not_aborted_superRefine [of sc data] by (auto simp: shape_aborted_def)
  qed
  from inv rej paths show ?thesis by blast
qed







lemmas schema_eval =
  BtpServerResponseSchema_def z_object_def response_shape_def example_schemas_def
  object_schema_def z_string_check_def z_string_def z_enum_def z_optional_def z_union_def
  z_boolean_def z_number_def BtpStatusSchema_def merge_status_def superRefine_def field_def
  version_regex_def is_digit_def isValidIdentity_def parseIdentity_def

lemma example_schemas_objects:
  "\<forall>v. BtpSignatureSchema example_schemas v \<noteq> Aborted \<longrightarrow> (\<exists>kvs. v = JObj kvs)"
  "\<forall>v. BtpEncryptionSchema example_schemas v \<noteq> Aborted \<longrightarrow> (\<exists>kvs. v = JObj kvs)"
  by (simp_all add: example_schemas_def object_schema_def split: jsval.splits)

lemma sealed_response_issues: "BtpServerResponseSchema example_schemas sealed_response = []"
  by (simp add: schema_eval sealed_response_def)

lemma broken_response_shape: "\<not> shape_aborted example_schemas broken_response"
  by (simp add: shape_aborted_def schema_eval broken_response_def)

theorem BtpServerResponseSchema_cross_field_witness:
  "accepts example_schemas sealed_response
   \<and> is_string (field sealed_response ''document'')
   \<and> present sealed_response ''signedBy'' \<and> present sealed_response ''selector''
   \<and> version_ok sealed_response
   \<and> [''version''] \<in> set (BtpServerResponseSchema example_schemas broken_response)
   \<and> [''signedBy''] \<in> set (BtpServerResponseSchema example_schemas broken_response)
   \<and> [''selector''] \<in> set (BtpServerResponseSchema example_schemas broken_response)
   \<and> [''document''] \<in> set (BtpServerResponseSchema example_schemas broken_response)"
proof -
  note t = BtpServerResponseSchema_cross_field [OF example_schemas_objects]
  have p: "present sealed_response ''encryption''" "present sealed_response ''signature''"
    by (simp_all add: present_def field_def sealed_response_def)
  have q: "present broken_response ''encryption''" "present broken_response ''signature''"
      "\<not> present broken_response ''signedBy''" "\<not> present broken_response ''selector''"
      "\<not> is_string (field broken_response ''document'')" "\<not> version_ok broken_response"
    by (simp_all add: present_def field_def broken_response_def version_ok_def version_regex_def)
  have a: "accepts example_schemas sealed_response"
    by (simp add: accepts_def sealed_response_issues)
  show ?thesis
    using t [of sealed_response] t [of broken_response] p q a broken_response_shape
    by simp
qed

section \<open>Trust store: flushing\<close>

lemma hasEntity_cong: "entityName s = entityName s' \<Longrightarrow> hasEntity s = hasEntity s'"
  by (simp add: hasEntity_def)




lemma writeToFile_clean: "\<not> dirty s \<Longrightarrow> writeToFile s d = (Inr (), s, d)"
  by (simp add: writeToFile_def)


lemma writeToFile_failed:
  assumes "writeToFile s d = (Inl e, s', d')"
  shows "\<not> dirty s' \<and> recordMap s' = recordMap s"
  using assms
  by (auto simp: writeToFile_def release_def Let_def split: if_splits)

text \<open>
  C2, as stated: a failed disk write sets the dirty flag again. In the code the flag is
  cleared before the write and nothing sets it on the error path: here the write of the
  temporary file fails, the error reaches the caller with the flag cleared, and the next
  flush, on a disk that works again, returns without writing the record.
\<close>

theorem writeToFile_failure_leaves_flag_cleared:
  "dirty pending_store
   \<and> writeToFile pending_store (healthy_disk\<lparr>failing := {WriteFile}\<rparr>)
       = (Inl (IoError WriteFile), pending_store\<lparr>dirty := False\<rparr>,
          healthy_disk\<lparr>failing := {WriteFile}\<rparr>)
   \<and> \<not> dirty (pending_store\<lparr>dirty := False\<rparr>)
   \<and> flushNow (pending_store\<lparr>dirty := False\<rparr>) healthy_disk
       = (Inr (), pending_store\<lparr>dirty := False\<rparr>, healthy_disk)"
  by (simp add: writeToFile_def flushNow_def release_def pending_store_def healthy_disk_def)

text \<open>
  C2, amended: when the flush of a dirty store fails, the error is returned to the caller,
  the dirty flag stays cleared and the record map is as it was; a later flush returns
  without writing, whatever the state of the disk, until another mutation sets the flag.
\<close>

theorem writeToFile_failure_state:
  assumes "dirty s" "writeToFile s d = (Inl e, s', d')"
  shows "\<not> dirty s' \<and> recordMap s' = recordMap s \<and> writeToFile s' d2 = (Inr (), s', d2)"
proof -
  have "\<not> dirty s' \<and> recordMap s' = recordMap s"
    using assms(2) by (rule writeToFile_failed)
  then show ?thesis by (simp add: writeToFile_clean)
qed

theorem writeToFile_failure_state_witness:
  "\<not> dirty (pending_store\<lparr>dirty := False\<rparr>)
   \<and> recordMap (pending_store\<lparr>dirty := False\<rparr>) = recordMap pending_store
   \<and> writeToFile (pending_store\<lparr>dirty := False\<rparr>) healthy_disk
       = (Inr (), pending_store\<lparr>dirty := False\<rparr>, healthy_disk)"
proof -
  have a: "dirty pending_store"
    by (simp add: pending_store_def)
  have b: "writeToFile pending_store (healthy_disk\<lparr>failing := {WriteFile}\<rparr>)
       = (Inl (IoError WriteFile), pending_store\<lparr>dirty := False\<rparr>,
          healthy_disk\<lparr>failing := {WriteFile}\<rparr>)"
    by (simp add: writeToFile_def release_def pending_store_def healthy_disk_def)
  show ?thesis
    using writeToFile_failure_state [OF a b, of healthy_disk] by simp
qed

section \<open>Trust store: reloading before a read\<close>









lemma getById_in_sync:
  assumes "recordMap s \<noteq> []" "live d = Some f" "Stat \<notin> failing d"
    "mtimeMs f = lastChangedMtime s"
  shows "getById s d i = (Inr (map_of (recordMap s) (JStr i)), s, d)"
  using assms by (simp add: getById_def init_if_empty_def reloadIfChanged_def)




section \<open>Trust store: create and update\<close>

lemma getById_result:
  assumes "getById s d i = (Inr x, s1, d1)"
  shows "x = map_of (recordMap s1) (JStr i)"
  using assms by (auto simp: getById_def split: prod.splits sum.splits)

lemma spread_Cons: "spread a ((k, v) # b) = spread (AList.update k v a) b"
  by (simp add: spread_def)

lemma map_of_spread_other:
  "k \<notin> fst ` set b \<Longrightarrow> map_of (spread a b) k = map_of a k"
proof (induction b arbitrary: a)
  case Nil
  show ?case by (simp add: spread_def)
next
  case (Cons p b)
  obtain k' v' where p: "p = (k', v')" by (cases p)
  with Cons.prems have "k \<noteq> k'" "k \<notin> fst ` set b" by auto
  then show ?case
    using Cons.IH [of "AList.update k' v' a"] p
    by (simp add: spread_Cons AList.update_conv')
qed

lemma map_of_spread_patch:
  "distinct (map fst b) \<Longrightarrow> (k, v) \<in> set b \<Longrightarrow> map_of (spread a b) k = Some v"
proof (induction b arbitrary: a)
  case Nil
  then show ?case by simp
next
  case (Cons p b)
  obtain k' v' where p: "p = (k', v')" by (cases p)
  show ?case
  proof (cases "(k, v) = p")
    case True
    with p Cons.prems have "k \<notin> fst ` set b" by auto
    then have "map_of (spread (AList.update k' v' a) b) k = map_of (AList.update k' v' a) k"
      by (rule map_of_spread_other)
    with True p show ?thesis
      by (simp add: spread_Cons AList.update_conv')
  next
    case False
    with Cons.prems have "(k, v) \<in> set b" "distinct (map fst b)" by auto
    then show ?thesis
      using Cons.IH [of "AList.update k' v' a"] p by (simp add: spread_Cons)
  qed
qed

lemma field_spread_other: "k \<notin> fst ` set b \<Longrightarrow> field (spread a b) k = field a k"
  by (simp add: field_def map_of_spread_other)

lemma field_spread_patch:
  "distinct (map fst b) \<Longrightarrow> (k, v) \<in> set b \<Longrightarrow> field (spread a b) k = v"
  by (simp add: field_def map_of_spread_patch)

lemma field_new_record:
  "field ((''id'', JStr i) # record) ''id'' = JStr i"
  "k \<noteq> ''id'' \<Longrightarrow> field ((''id'', JStr i) # record) k = field record k"
  by (simp_all add: field_def)

text \<open>
  C7: for a record without an \<open>id\<close> property, the id is the explicit one when one is given
  and otherwise the value of computeTrustId on the sender and the receiver, so records with
  the same pair get the same id. When getById finds a record under that id, create fails
  with the already-exists error; when it finds none, create returns the record with the
  \<open>id\<close> property put in front, stores it under the id, leaves the other entries alone and
  marks the store dirty; an error of getById is passed on.
\<close>

theorem create_result:
  assumes "''id'' \<notin> fst ` set record"
    and "i = trust_id computeTrustId record computedId"
    and "newRecord = (''id'', JStr i) # record"
  shows "(computedId = None \<longrightarrow>
            i = computeTrustId (field record ''senderId'') (field record ''receiverId''))
       \<and> (\<forall>x. computedId = Some x \<longrightarrow> i = x)
       \<and> (\<forall>existing s1 d1. getById s d i = (Inr (Some existing), s1, d1) \<longrightarrow>
             create computeTrustId s d record computedId
               = (Inl (AlreadyExists (field record ''senderId'') (field record ''receiverId'')),
                  s1, d1))
       \<and> (\<forall>s1 d1. getById s d i = (Inr None, s1, d1) \<longrightarrow>
             (\<exists>s2. create computeTrustId s d record computedId = (Inr newRecord, s2, d1)
                  \<and> map_of (recordMap s2) (JStr i) = Some newRecord
                  \<and> (\<forall>k. k \<noteq> JStr i \<longrightarrow> map_of (recordMap s2) k = map_of (recordMap s1) k)
                  \<and> dirty s2 \<and> writePending s2))
       \<and> (\<forall>e s1 d1. getById s d i = (Inl e, s1, d1) \<longrightarrow>
             create computeTrustId s d record computedId = (Inl e, s1, d1))
       \<and> field newRecord ''id'' = JStr i
       \<and> (\<forall>k. k \<noteq> ''id'' \<longrightarrow> field newRecord k = field record k)"
proof (intro conjI allI impI)
  assume "computedId = None"
  with assms(2) show "i = computeTrustId (field record ''senderId'') (field record ''receiverId'')"
    by (simp add: trust_id_def)
next
  fix x assume "computedId = Some x"
  with assms(2) show "i = x" by (simp add: trust_id_def)
next
  fix existing s1 d1
  assume "getById s d i = (Inr (Some existing), s1, d1)"
  with assms show "create computeTrustId s d record computedId
               = (Inl (AlreadyExists (field record ''senderId'') (field record ''receiverId'')),
                  s1, d1)"
    by (simp add: create_def Let_def)
next
  fix s1 d1
  assume g: "getById s d i = (Inr None, s1, d1)"
  let ?s2 = "mark_dirty (s1\<lparr>recordMap := AList.update (JStr i) newRecord (recordMap s1)\<rparr>)"
  have "create computeTrustId s d record computedId = (Inr newRecord, ?s2, d1)"
    using assms g by (simp add: create_def Let_def)
  moreover have "map_of (recordMap ?s2) (JStr i) = Some newRecord"
    by (simp add: mark_dirty_def AList.update_conv')
  moreover have "\<forall>k. k \<noteq> JStr i \<longrightarrow> map_of (recordMap ?s2) k = map_of (recordMap s1) k"
    by (simp add: mark_dirty_def AList.update_conv')
  moreover have "dirty ?s2 \<and> writePending ?s2"
    by (simp add: mark_dirty_def)
  ultimately show "\<exists>s2. create computeTrustId s d record computedId = (Inr newRecord, s2, d1)
                  \<and> map_of (recordMap s2) (JStr i) = Some newRecord
                  \<and> (\<forall>k. k \<noteq> JStr i \<longrightarrow> map_of (recordMap s2) k = map_of (recordMap s1) k)
                  \<and> dirty s2 \<and> writePending s2"
    by blast
next
  fix e s1 d1
  assume "getById s d i = (Inl e, s1, d1)"
  with assms show "create computeTrustId s d record computedId = (Inl e, s1, d1)"
    by (simp add: create_def Let_def)
next
  show "field newRecord ''id'' = JStr i"
    using assms(3) by (simp add: field_new_record)
next
  fix k :: string assume "k \<noteq> ''id''"
  then show "field newRecord k = field record k"
    using assms(3) by (simp add: field_new_record)
qed

theorem create_result_witness:
  "fst (create pair_id synced_store synced_disk carol_request None)
     = Inr ((''id'', JStr ''carol$c.example>bob$b.example'') # carol_request)
   \<and> create pair_id synced_store synced_disk carol_request (Some ''t1'')
     = (Inl (AlreadyExists (JStr ''carol$c.example'') (JStr ''bob$b.example'')),
        synced_store, synced_disk)"
proof -
  have noid: "''id'' \<notin> fst ` set carol_request"
    by (simp add: carol_request_def)
  have sync: "recordMap synced_store \<noteq> []"
      "live synced_disk = Some \<lparr>content = JsonObject [(''trusted_senders'', [alice_to_bob])], mtimeMs = 5\<rparr>"
      "Stat \<notin> failing synced_disk"
      "mtimeMs \<lparr>content = JsonObject [(''trusted_senders'', [alice_to_bob])], mtimeMs = 5\<rparr>
         = lastChangedMtime synced_store"
    by (simp_all add: synced_store_def synced_disk_def)
  have i: "''carol$c.example>bob$b.example'' = trust_id pair_id carol_request None"
    and j: "''t1'' = trust_id pair_id carol_request (Some ''t1'')"
    by (simp_all add: trust_id_def pair_id_def field_def carol_request_def)
  have g1: "getById synced_store synced_disk ''carol$c.example>bob$b.example''
              = (Inr None, synced_store, synced_disk)"
    using getById_in_sync [OF sync] by (simp add: synced_store_def)
  have g2: "getById synced_store synced_disk ''t1''
              = (Inr (Some alice_to_bob), synced_store, synced_disk)"
    using getById_in_sync [OF sync] by (simp add: synced_store_def)
  have f: "field carol_request ''senderId'' = JStr ''carol$c.example''"
      "field carol_request ''receiverId'' = JStr ''bob$b.example''"
    by (simp_all add: field_def carol_request_def)
  show ?thesis
    using create_result [OF noid i refl, of synced_store synced_disk]
          create_result [OF noid j refl, of synced_store synced_disk]
          g1 g2 f
    by auto
qed

text \<open>
  C10: when getById finds a record under the key, update returns the merge of the record
  and the patch and stores it under that same key: the keys of the map and the other
  entries are as before, every property that the patch does not name keeps its value, and
  every property of the patch has the patch's value. So a patch with an \<open>id\<close> other than
  the key leaves a record whose \<open>id\<close> differs from the key it is stored under.
\<close>

theorem update_result:
  assumes "getById s d i = (Inr (Some r), s1, d1)"
  shows "\<exists>s2. update s d i patch = (Inr (spread r patch), s2, d1)
       \<and> map_of (recordMap s2) (JStr i) = Some (spread r patch)
       \<and> map fst (recordMap s2) = map fst (recordMap s1)
       \<and> (\<forall>k. k \<noteq> JStr i \<longrightarrow> map_of (recordMap s2) k = map_of (recordMap s1) k)
       \<and> (\<forall>k. k \<notin> fst ` set patch \<longrightarrow> field (spread r patch) k = field r k)
       \<and> (\<forall>k v. distinct (map fst patch) \<and> (k, v) \<in> set patch \<longrightarrow>
                  field (spread r patch) k = v)
       \<and> (\<forall>v. distinct (map fst patch) \<and> (''id'', v) \<in> set patch \<and> v \<noteq> JStr i \<longrightarrow>
                  (\<exists>stored. map_of (recordMap s2) (JStr i) = Some stored
                          \<and> field stored ''id'' \<noteq> JStr i))
       \<and> dirty s2 \<and> writePending s2"
proof -
  let ?u = "spread r patch"
  let ?s2 = "mark_dirty (s1\<lparr>recordMap := AList.update (JStr i) ?u (recordMap s1)\<rparr>)"
  have "Some r = map_of (recordMap s1) (JStr i)"
    using assms by (rule getById_result)
  then have "JStr i \<in> set (map fst (recordMap s1))"
    by (metis map_of_eq_None_iff option.distinct(1) set_map)
  then have keys: "map fst (recordMap ?s2) = map fst (recordMap s1)"
    by (simp add: mark_dirty_def AList.update_keys)
  have u: "update s d i patch = (Inr ?u, ?s2, d1)"
    using assms by (simp add: update_def Let_def)
  have stored: "map_of (recordMap ?s2) (JStr i) = Some ?u"
    by (simp add: mark_dirty_def AList.update_conv')
  have others: "\<forall>k. k \<noteq> JStr i \<longrightarrow> map_of (recordMap ?s2) k = map_of (recordMap s1) k"
    by (simp add: mark_dirty_def AList.update_conv')
  have kept: "\<forall>k. k \<notin> fst ` set patch \<longrightarrow> field ?u k = field r k"
    by (simp add: field_spread_other)
  have patched: "\<forall>k v. distinct (map fst patch) \<and> (k, v) \<in> set patch \<longrightarrow> field ?u k = v"
    by (simp add: field_spread_patch)
  have idp: "\<forall>v. distinct (map fst patch) \<and> (''id'', v) \<in> set patch \<and> v \<noteq> JStr i \<longrightarrow>
                  (\<exists>stored. map_of (recordMap ?s2) (JStr i) = Some stored
                          \<and> field stored ''id'' \<noteq> JStr i)"
    using stored patched by auto
  have flags: "dirty ?s2 \<and> writePending ?s2"
    by (simp add: mark_dirty_def)
  from u stored keys others kept patched idp flags show ?thesis
    by (intro exI [of _ ?s2]) blast
qed

theorem update_result_witness:
  "fst (update synced_store synced_disk ''t1'' [(''status'', JStr ''revoked''), (''id'', JStr ''t9'')])
     = Inr [(''id'', JStr ''t9''), (''senderId'', JStr ''alice$a.example''),
            (''receiverId'', JStr ''bob$b.example''), (''status'', JStr ''revoked'')]
   \<and> map fst (recordMap (fst (snd (update synced_store synced_disk ''t1''
         [(''status'', JStr ''revoked''), (''id'', JStr ''t9'')])))) = [JStr ''t1'']"
proof -
  have sync: "recordMap synced_store \<noteq> []"
      "live synced_disk = Some \<lparr>content = JsonObject [(''trusted_senders'', [alice_to_bob])], mtimeMs = 5\<rparr>"
      "Stat \<notin> failing synced_disk"
      "mtimeMs \<lparr>content = JsonObject [(''trusted_senders'', [alice_to_bob])], mtimeMs = 5\<rparr>
         = lastChangedMtime synced_store"
    by (simp_all add: synced_store_def synced_disk_def)
  have g: "getById synced_store synced_disk ''t1''
              = (Inr (Some alice_to_bob), synced_store, synced_disk)"
    using getById_in_sync [OF sync] by (simp add: synced_store_def)
  have m: "spread alice_to_bob [(''status'', JStr ''revoked''), (''id'', JStr ''t9'')]
             = [(''id'', JStr ''t9''), (''senderId'', JStr ''alice$a.example''),
                (''receiverId'', JStr ''bob$b.example''), (''status'', JStr ''revoked'')]"
    by (simp add: spread_def alice_to_bob_def)
  have k: "map fst (recordMap synced_store) = [JStr ''t1'']"
    by (simp add: synced_store_def)
  obtain s2 where
    u: "update synced_store synced_disk ''t1'' [(''status'', JStr ''revoked''), (''id'', JStr ''t9'')]
          = (Inr (spread alice_to_bob [(''status'', JStr ''revoked''), (''id'', JStr ''t9'')]),
             s2, synced_disk)"
    and keys: "map fst (recordMap s2) = map fst (recordMap synced_store)"
    using update_result [OF g, of "[(''status'', JStr ''revoked''), (''id'', JStr ''t9'')]"]
    by blast
  show ?thesis
    unfolding u using m k keys by simp
qed

section \<open>Client connector: retry information\<close>




section \<open>Client connector: destroy\<close>

lemma destroy_state:
  "destroyed (fst (destroy c))"
  "\<not> destroyed c \<Longrightarrow> subscribers (fst (destroy c)) = []"
  "\<not> destroyed c \<Longrightarrow> \<not> socketOpen (fst (destroy c))"
  "snd (destroy c) = []"
  by (simp_all add: destroy_def)

lemma step_destroyed: "destroyed c \<Longrightarrow> step left c a = (c, [])"
  by (cases a)
     (simp_all add: connect_def send_def end_connection_def destroy_def on_signal_def)

lemma run_destroyed: "destroyed c \<Longrightarrow> run left c as = (c, [])"
  by (induction as) (simp_all add: step_destroyed)

lemma run_head:
  "run left c (a # as)
     = (fst (run left (fst (step left c a)) as),
        snd (step left c a) @ snd (run left (fst (step left c a)) as))"
  by (simp add: case_prod_beta)

lemma emit_no_subscribers: "subscribers c = [] \<Longrightarrow> emit c ev = []"
  by (simp add: emit_def)

text \<open>
  C9: after destroy the client is destroyed, has no subscriber, no open socket and an empty
  queue; every later run of calls and signals delivers no event and leaves the client as
  it is. In particular a second destroy and a connect return normally, with the client
  unchanged and nothing delivered.
\<close>

theorem destroy_is_final:
  assumes "\<not> destroyed c" "c' = fst (destroy c)"
  shows "destroyed c' \<and> phase c' = Destroyed \<and> subscribers c' = [] \<and> \<not> socketOpen c'
       \<and> backpressureQueue c' = []
       \<and> snd (destroy c) = []
       \<and> (\<forall>ev. emit c' ev = [])
       \<and> (\<forall>left as. run left c' as = (c', []))
       \<and> destroy c' = (c', [])
       \<and> (\<forall>left r hs. connect left c' r hs = (c', []))"
proof -
  have d: "destroyed c'" using assms by (simp add: destroy_def)
  have s: "subscribers c' = []" using assms by (simp add: destroy_def)
  have "phase c' = Destroyed \<and> \<not> socketOpen c' \<and> backpressureQueue c' = []"
    using assms by (simp add: destroy_def)
  moreover have "snd (destroy c) = []" by (simp add: destroy_def)
  moreover have "\<forall>ev. emit c' ev = []" using s by (simp add: emit_no_subscribers)
  moreover have "\<forall>left as. run left c' as = (c', [])" using d by (simp add: run_destroyed)
  moreover have "destroy c' = (c', [])" using d by (simp add: destroy_def)
  moreover have "\<forall>left r hs. connect left c' r hs = (c', [])" using d by (simp add: connect_def)
  ultimately show ?thesis using d s by blast
qed

theorem destroy_is_final_witness:
  "run spec_retriesLeft ready_client
     [CallDestroy, Signal SocketClosed, CallDestroy, CallConnect ''bob$b.example'' [(OnError, 3)],
      Signal (SocketError ''late'')]
     = (fst (destroy ready_client), [])
   \<and> subscribers (fst (destroy ready_client)) = []
   \<and> \<not> socketOpen (fst (destroy ready_client))"
proof -
  let ?rest = "[Signal SocketClosed, CallDestroy, CallConnect ''bob$b.example'' [(OnError, 3)],
                Signal (SocketError ''late'')]"
  have nd: "\<not> destroyed ready_client" by (simp add: ready_client_def)
  note t = destroy_is_final [OF nd refl]
  from t have r: "run spec_retriesLeft (fst (destroy ready_client)) ?rest
                    = (fst (destroy ready_client), [])"
    by blast
  from t have o: "snd (destroy ready_client) = []"
    by blast
  have "run spec_retriesLeft ready_client (CallDestroy # ?rest)
          = (fst (run spec_retriesLeft (fst (step spec_retriesLeft ready_client CallDestroy)) ?rest),
             snd (step spec_retriesLeft ready_client CallDestroy)
               @ snd (run spec_retriesLeft (fst (step spec_retriesLeft ready_client CallDestroy)) ?rest))"
    by (rule run_head)
  also have "step spec_retriesLeft ready_client CallDestroy = destroy ready_client"
    by simp
  finally have "run spec_retriesLeft ready_client (CallDestroy # ?rest)
                  = (fst (destroy ready_client), [])"
    by (simp only: r o fst_conv snd_conv append_Nil)
  with t show ?thesis by blast
qed

end
